theory Spec2Isabelle
  imports Main "HOL-Library.AList"
begin

section \<open>Python values: exceptions and subscript arguments\<close>

text \<open>
  The exceptions that the methods of \<open>TemporalBuffer\<close> (src/temporal/main.py) can raise,
  either by an explicit \<open>raise\<close> or through the containers they call.
\<close>

datatype error =
    IndexError
  | NotImplementedError
  | TypeError
  | KeyError
  | ZeroDivisionError
  | ValueError
  | AttributeError

text \<open>
  The kinds of object that can be passed as a subscript: an \<open>int\<close>, a \<open>slice\<close>
  (start, stop, step, each possibly \<open>None\<close>), a \<open>str\<close>, or an object of any other
  type (a float, \<open>None\<close>, a tuple, ...).
\<close>

datatype index =
    IntIdx int
  | SliceIdx "int option" "int option" "int option"
  | StrIdx string
  | OtherIdx

section \<open>collections.deque with a maximum length\<close>

record 'v deque =
  maxlen :: nat
  items :: "'v list"

text \<open>\<open>deque(maxlen=n)\<close>: a negative \<open>maxlen\<close> raises \<open>ValueError\<close>.\<close>

definition deque_new :: "int \<Rightarrow> error + 'v deque" where
  "deque_new n = (if n < 0 then Inl ValueError else Inr \<lparr>maxlen = nat n, items = []\<rparr>)"

text \<open>\<open>d.append(x)\<close>: add on the right, then drop the leftmost element when the
  length exceeds \<open>maxlen\<close>.\<close>

definition deque_append :: "'v deque \<Rightarrow> 'v \<Rightarrow> 'v deque" where
  "deque_append d x =
     (let xs = items d @ [x]
      in d\<lparr>items := (if maxlen d < length xs then tl xs else xs)\<rparr>)"

text \<open>\<open>d[i]\<close>: only integers are accepted; a negative integer counts from the right;
  an integer outside \<open>-len .. len - 1\<close> raises \<open>IndexError\<close>.\<close>

definition deque_getitem :: "'v deque \<Rightarrow> index \<Rightarrow> error + 'v" where
  "deque_getitem d idx =
     (case idx of
        IntIdx i \<Rightarrow>
          (let n = int (length (items d));
               j = (if i < 0 then i + n else i)
           in if j < 0 \<or> n \<le> j then Inl IndexError else Inr (items d ! nat j))
      | _ \<Rightarrow> Inl TypeError)"

text \<open>\<open>xs[start:]\<close> on a list: a negative start counts from the right, and the start is
  clamped to \<open>0 .. len\<close>.\<close>

definition slice_from :: "'a list \<Rightarrow> int \<Rightarrow> 'a list" where
  "slice_from xs start =
     (let n = int (length xs);
          s = (if start < 0 then max (start + n) 0 else min start n)
      in drop (nat s) xs)"

section \<open>LimitedDict\<close>

text \<open>
  Modelled from the spec: the class \<open>LimitedDict\<close> of \<open>temporal/util.py\<close>, which is
  imported by src/temporal/main.py but is not among the source files. The specification
  (section 4.1, BoundedKeyIndex) describes it as a mapping from identifier to record with a
  hard capacity that tracks insertion order:
  \<^item> \<open>set(key, value)\<close> inserts or overwrites; if the key is new and the size equals the
    capacity, the single oldest-inserted key is evicted before inserting; overwriting an
    existing key keeps its insertion-order position; it always succeeds;
  \<^item> \<open>get(key, default)\<close> returns the stored value, or \<open>default\<close> if absent; never raises;
  \<^item> \<open>delete(key)\<close> removes the key and fails with KeyNotFound if it is absent;
  \<^item> \<open>contains(key)\<close> is the membership test;
  \<^item> \<open>keys()\<close> lists the keys in insertion order, oldest first.
  The entries are an association list, oldest insertion first.
\<close>

record 'v LimitedDict =
  limit :: nat
  entries :: "(string \<times> 'v) list"

definition LimitedDict_new :: "nat \<Rightarrow> 'v LimitedDict" where
  "LimitedDict_new n = \<lparr>limit = n, entries = []\<rparr>"

definition ld_contains :: "'v LimitedDict \<Rightarrow> string \<Rightarrow> bool" where
  "ld_contains d k = (k \<in> set (map fst (entries d)))"

definition ld_setitem :: "'v LimitedDict \<Rightarrow> string \<Rightarrow> 'v \<Rightarrow> 'v LimitedDict" where
  "ld_setitem d k v =
     (if \<not> ld_contains d k \<and> length (entries d) = limit d
      then d\<lparr>entries := AList.update k v (tl (entries d))\<rparr>
      else d\<lparr>entries := AList.update k v (entries d)\<rparr>)"

definition ld_get :: "'v LimitedDict \<Rightarrow> string \<Rightarrow> 'r \<Rightarrow> ('v \<Rightarrow> 'r) \<Rightarrow> 'r" where
  "ld_get d k dflt found = (case map_of (entries d) k of None \<Rightarrow> dflt | Some v \<Rightarrow> found v)"

definition ld_delitem :: "'v LimitedDict \<Rightarrow> string \<Rightarrow> error + 'v LimitedDict" where
  "ld_delitem d k =
     (if ld_contains d k then Inr (d\<lparr>entries := AList.delete k (entries d)\<rparr>)
      else Inl KeyError)"

definition ld_keys :: "'v LimitedDict \<Rightarrow> string list" where
  "ld_keys d = map fst (entries d)"

section \<open>TemporalBuffer\<close>

text \<open>
  The attributes of a \<open>TemporalBuffer\<close> object. A state record is a value of the type
  parameter \<open>'v\<close>: the buffer never looks inside a record, so \<open>'v\<close> may be instantiated
  with object references, and equality on \<open>'v\<close> is then object identity.

  Every method takes the object and returns the outcome (an exception or the returned value)
  together with the object as the call leaves it, since an exception raised in the middle of a
  method keeps the assignments made before it.
\<close>

record 'v TemporalBuffer =
  buffer :: "'v deque"
  id_index :: "'v LimitedDict"
  current_index :: int

type_synonym ('r, 'v) outcome = "(error + 'r) \<times> 'v TemporalBuffer"

definition init :: "int \<Rightarrow> error + 'v TemporalBuffer" where
  "init temporal_depth =
     (case deque_new temporal_depth of
        Inl e \<Rightarrow> Inl e
      | Inr dq \<Rightarrow>
          Inr \<lparr>buffer = dq,
               id_index = LimitedDict_new (nat temporal_depth),
               current_index = - 1\<rparr>)"

definition add :: "'v TemporalBuffer \<Rightarrow> string \<Rightarrow> 'v \<Rightarrow> (unit, 'v) outcome" where
  "add self tid state =
     (let s1 = self\<lparr>id_index := ld_setitem (id_index self) tid state\<rparr>
      in if length (items (buffer s1)) = maxlen (buffer s1)
         then (if maxlen (buffer s1) = 0 then (Inl ZeroDivisionError, s1)
               else
                 (let s2 = s1\<lparr>current_index :=
                               (current_index s1 + 1) mod int (maxlen (buffer s1))\<rparr>
                  in (Inr (), s2\<lparr>buffer := deque_append (buffer s2) state\<rparr>)))
         else
           (let s2 = s1\<lparr>current_index := current_index s1 + 1\<rparr>
            in (Inr (), s2\<lparr>buffer := deque_append (buffer s2) state\<rparr>)))"

text \<open>\<open>update\<close> reads the attribute \<open>temporal_id\<close> of the object it is given; the
  attribute access is the parameter \<open>temporal_id\<close>, which is \<open>None\<close> for an object without
  that attribute.\<close>

definition update ::
  "('v \<Rightarrow> string option) \<Rightarrow> 'v TemporalBuffer \<Rightarrow> 'v \<Rightarrow> (unit, 'v) outcome" where
  "update temporal_id self object_state =
     (case temporal_id object_state of
        None \<Rightarrow> (Inl AttributeError, self)
      | Some tid \<Rightarrow> add self tid object_state)"

definition get_last_n_states :: "'v TemporalBuffer \<Rightarrow> int \<Rightarrow> ('v list, 'v) outcome" where
  "get_last_n_states self n = (Inr (slice_from (items (buffer self)) (- n)), self)"

definition move_forward :: "'v TemporalBuffer \<Rightarrow> ('v, 'v) outcome" where
  "move_forward self = (Inl NotImplementedError, self)"

definition move_backward :: "'v TemporalBuffer \<Rightarrow> ('v, 'v) outcome" where
  "move_backward self = (Inl NotImplementedError, self)"

definition get_by_temporal_id :: "'v TemporalBuffer \<Rightarrow> string \<Rightarrow> 'v option" where
  "get_by_temporal_id self temporal_id = ld_get (id_index self) temporal_id None Some"

definition len :: "'v TemporalBuffer \<Rightarrow> (nat, 'v) outcome" where
  "len self = (Inr (length (items (buffer self))), self)"

definition call :: "'v TemporalBuffer \<Rightarrow> index \<Rightarrow> ('v, 'v) outcome" where
  "call self idx =
     (if length (items (buffer self)) = 0 then (Inl IndexError, self)
      else (deque_getitem (buffer self) idx, self))"

definition call_default :: "'v TemporalBuffer \<Rightarrow> ('v, 'v) outcome" where
  "call_default self = call self (IntIdx 0)"

definition contains :: "'v TemporalBuffer \<Rightarrow> string \<Rightarrow> (bool, 'v) outcome" where
  "contains self key = (Inr (ld_contains (id_index self) key), self)"

definition setitem :: "'v TemporalBuffer \<Rightarrow> string \<Rightarrow> 'v \<Rightarrow> (unit, 'v) outcome" where
  "setitem self key val = (Inr (), self\<lparr>id_index := ld_setitem (id_index self) key val\<rparr>)"

definition delitem :: "'v TemporalBuffer \<Rightarrow> string \<Rightarrow> (unit, 'v) outcome" where
  "delitem self key =
     (case ld_delitem (id_index self) key of
        Inl e \<Rightarrow> (Inl e, self)
      | Inr d \<Rightarrow> (Inr (), self\<lparr>id_index := d\<rparr>))"

definition iter :: "'v TemporalBuffer \<Rightarrow> ('v list, 'v) outcome" where
  "iter self = (Inr (items (buffer self)), self)"

text \<open>\<open>__getitem__\<close>: the result is a record (\<open>Some\<close>) or Python's \<open>None\<close>, which the
  string branch returns for an identifier that the index does not hold.\<close>

definition getitem :: "'v TemporalBuffer \<Rightarrow> index \<Rightarrow> ('v option, 'v) outcome" where
  "getitem self idx =
     (case idx of
        IntIdx i \<Rightarrow>
          (let i' = (if i < 0 then abs i else i)
           in if i' < 0 \<or> int (length (items (buffer self))) \<le> i'
              then (Inl IndexError, self)
              else (map_sum id Some (deque_getitem (buffer self) (IntIdx (- 1 - i'))), self))
      | SliceIdx start stop step \<Rightarrow> (Inl NotImplementedError, self)
      | StrIdx s \<Rightarrow> (Inr (get_by_temporal_id self s), self)
      | OtherIdx \<Rightarrow> (Inl TypeError, self))"

definition get_state_at_index :: "'v TemporalBuffer \<Rightarrow> int \<Rightarrow> ('v option, 'v) outcome" where
  "get_state_at_index self i = getitem self (IntIdx i)"

definition current :: "'v TemporalBuffer \<Rightarrow> ('v, 'v) outcome" where
  "current self = (deque_getitem (buffer self) (IntIdx (- 1)), self)"

subsection \<open>Sequences of calls\<close>

text \<open>The calls that change a buffer through its documented interface, and running a list
  of them in order; an exception ends the run.\<close>

datatype 'v mutator = Add string 'v | Update 'v

definition apply_mutator ::
  "('v \<Rightarrow> string option) \<Rightarrow> 'v TemporalBuffer \<Rightarrow> 'v mutator \<Rightarrow> (unit, 'v) outcome" where
  "apply_mutator temporal_id self m =
     (case m of Add tid state \<Rightarrow> add self tid state
              | Update obj \<Rightarrow> update temporal_id self obj)"

fun run :: "('v \<Rightarrow> string option) \<Rightarrow> 'v TemporalBuffer \<Rightarrow> 'v mutator list
            \<Rightarrow> (unit, 'v) outcome" where
  "run temporal_id self [] = (Inr (), self)"
| "run temporal_id self (m # ms) =
     (case apply_mutator temporal_id self m of
        (Inl e, s) \<Rightarrow> (Inl e, s)
      | (Inr u, s) \<Rightarrow> run temporal_id s ms)"

fun add_all :: "'v TemporalBuffer \<Rightarrow> (string \<times> 'v) list \<Rightarrow> (unit, 'v) outcome" where
  "add_all self [] = (Inr (), self)"
| "add_all self ((tid, state) # ps) =
     (case add self tid state of
        (Inl e, s) \<Rightarrow> (Inl e, s)
      | (Inr u, s) \<Rightarrow> add_all s ps)"

subsection \<open>The fixture of the test suite\<close>

text \<open>\<open>filled_temporal_object\<close> of src/tests/test_temporal.py: depth 3 and four calls of
  \<open>add\<close>. A record \<open>{"value": 10}\<close> is the association list \<open>[(''value'', 10)]\<close>.\<close>

definition filled_temporal_object :: "(string \<times> int) list TemporalBuffer" where
  "filled_temporal_object =
     (case init 3 of
        Inr s \<Rightarrow>
          snd (add_all s
                 [(''id1'', [(''value'', 10)]), (''id2'', [(''value'', 20)]),
                  (''id3'', [(''value'', 30)]), (''id4'', [(''value'', 40)])]))"

text \<open>\<open>temporal_object\<close> of the same file: a new buffer of depth 3.\<close>

definition temporal_object :: "(string \<times> int) list TemporalBuffer" where
  "temporal_object = (case init 3 of Inr s \<Rightarrow> s)"

section \<open>Basic facts about the containers\<close>

lemma temporal_object_eq:
  "temporal_object =
     \<lparr>buffer = \<lparr>maxlen = 3, items = []\<rparr>,
      id_index = \<lparr>limit = 3, entries = []\<rparr>,
      current_index = - 1\<rparr>"
  by (simp add: temporal_object_def init_def deque_new_def LimitedDict_new_def)

lemma filled_temporal_object_eq:
  "filled_temporal_object =
     \<lparr>buffer = \<lparr>maxlen = 3, items = [[(''value'', 20)], [(''value'', 30)], [(''value'', 40)]]\<rparr>,
      id_index = \<lparr>limit = 3,
                  entries = [(''id2'', [(''value'', 20)]), (''id3'', [(''value'', 30)]),
                             (''id4'', [(''value'', 40)])]\<rparr>,
      current_index = 0\<rparr>"
  by (simp add: filled_temporal_object_def init_def deque_new_def LimitedDict_new_def add_def
      ld_setitem_def ld_contains_def deque_append_def Let_def)

lemma deque_getitem_from_right:
  assumes "0 \<le> d" and "d < int (length (items dq))"
  shows "deque_getitem dq (IntIdx (- 1 - d)) = Inr (items dq ! (length (items dq) - 1 - nat d))"
proof -
  have "nat (- 1 - d + int (length (items dq))) = length (items dq) - 1 - nat d"
    using assms by linarith
  then show ?thesis
    using assms by (simp add: deque_getitem_def Let_def)
qed

text \<open>The integer branch of \<open>__getitem__\<close> in closed form.\<close>

lemma getitem_int:
  "fst (getitem self (IntIdx i)) =
     (if int (length (items (buffer self))) \<le> \<bar>i\<bar> then Inl IndexError
      else Inr (Some (items (buffer self) ! (length (items (buffer self)) - 1 - nat \<bar>i\<bar>))))"
proof (cases "int (length (items (buffer self))) \<le> \<bar>i\<bar>")
  case True
  then show ?thesis
    by (auto simp: getitem_def Let_def)
next
  case False
  then have "deque_getitem (buffer self) (IntIdx (- 1 - \<bar>i\<bar>)) =
      Inr (items (buffer self) ! (length (items (buffer self)) - 1 - nat \<bar>i\<bar>))"
    by (intro deque_getitem_from_right) simp_all
  with False show ?thesis
    by (cases "i < 0") (simp_all add: getitem_def Let_def)
qed

lemma deque_getitem_nonneg:
  "0 \<le> i \<Longrightarrow> deque_getitem dq (IntIdx i) =
     (if i < int (length (items dq)) then Inr (items dq ! nat i) else Inl IndexError)"
  by (simp add: deque_getitem_def Let_def)

lemma deque_getitem_neg:
  assumes "1 \<le> d"
  shows "deque_getitem dq (IntIdx (- d)) =
     (if d \<le> int (length (items dq)) then Inr (items dq ! (length (items dq) - nat d))
      else Inl IndexError)"
proof -
  have "nat (int (length (items dq)) - d) = length (items dq) - nat d"
    using assms by linarith
  then show ?thesis
    using assms by (simp add: deque_getitem_def Let_def)
qed

lemma add_success_last:
  assumes "fst (add self tid v) = Inr ()"
  shows "items (buffer (snd (add self tid v))) \<noteq> [] \<and>
         last (items (buffer (snd (add self tid v)))) = v"
proof (cases "items (buffer self)")
  case Nil
  with assms show ?thesis
    by (auto simp: add_def deque_append_def Let_def split: if_splits)
next
  case (Cons x xs)
  with assms show ?thesis
    by (auto simp: add_def deque_append_def Let_def split: if_splits)
qed

lemma getitem_zero_last:
  "items (buffer self) \<noteq> [] \<Longrightarrow>
     fst (getitem self (IntIdx 0)) = Inr (Some (last (items (buffer self))))"
  by (simp add: getitem_int last_conv_nth)

lemma getitem_int_frame:
  "buffer s' = buffer s \<Longrightarrow> fst (getitem s' (IntIdx i)) = fst (getitem s (IntIdx i))"
  by (simp add: getitem_int)

lemma getitem_nat:
  "d < length (items (buffer s)) \<Longrightarrow>
     fst (getitem s (IntIdx (int d))) =
       Inr (Some (items (buffer s) ! (length (items (buffer s)) - 1 - d)))"
  by (simp add: getitem_int)

section \<open>Positional reads\<close>

text \<open>
  Claim C3 (positional read range check). For every buffer and every integer \<open>i\<close>, the read
  \<open>buffer[i]\<close> raises \<open>IndexError\<close> exactly when \<open>|i|\<close> is at least the current length;
  otherwise it returns a record (the one \<open>|i|\<close> places before the newest) and raises
  nothing. \<open>IndexError\<close> is the only exception an integer read can raise.
\<close>

theorem getitem_int_range_check:
  "(fst (getitem self (IntIdx i)) = Inl IndexError
      \<longleftrightarrow> int (length (items (buffer self))) \<le> \<bar>i\<bar>) \<and>
   (\<bar>i\<bar> < int (length (items (buffer self))) \<longrightarrow>
      fst (getitem self (IntIdx i)) =
        Inr (Some (items (buffer self) ! (length (items (buffer self)) - 1 - nat \<bar>i\<bar>)))) \<and>
   (\<forall>e. fst (getitem self (IntIdx i)) = Inl e \<longrightarrow> e = IndexError)"
  by (simp add: getitem_int)

theorem getitem_int_range_check_witness:
  "fst (getitem filled_temporal_object (IntIdx (- 2))) = Inr (Some [(''value'', 20)]) \<and>
   fst (getitem filled_temporal_object (IntIdx 3)) = Inl IndexError \<and>
   fst (getitem filled_temporal_object (IntIdx (- 3))) = Inl IndexError"
  using getitem_int_range_check [of filled_temporal_object "- 2"]
    getitem_int_range_check [of filled_temporal_object 3]
    getitem_int_range_check [of filled_temporal_object "- 3"]
  by (simp add: filled_temporal_object_eq)

text \<open>
  Claim C2 (absolute-value index collapsing), as amended. In every buffer state that holds at
  least one record, \<open>buffer[0]\<close> returns the most recently added record: it is the last
  element of the deque, and after any successful \<open>add(id, v)\<close> it is \<open>v\<close>. In the empty
  state the range check of \<open>__getitem__\<close> raises \<open>IndexError\<close>. For every integer \<open>d\<close> with
  \<open>1 \<le> d < length\<close>, \<open>buffer[d]\<close> and \<open>buffer[-d]\<close> return the same record, the one \<open>d\<close>
  places before the newest.
\<close>

theorem getitem_abs_collapse:
  "(fst (add self tid v) = Inr () \<longrightarrow>
      fst (getitem (snd (add self tid v)) (IntIdx 0)) = Inr (Some v)) \<and>
   (items (buffer self) \<noteq> [] \<longrightarrow>
      fst (getitem self (IntIdx 0)) = Inr (Some (last (items (buffer self))))) \<and>
   (items (buffer self) = [] \<longrightarrow> fst (getitem self (IntIdx 0)) = Inl IndexError) \<and>
   (1 \<le> d \<and> d < int (length (items (buffer self))) \<longrightarrow>
      fst (getitem self (IntIdx d)) = Inr (Some (rev (items (buffer self)) ! nat d)) \<and>
      fst (getitem self (IntIdx (- d))) = Inr (Some (rev (items (buffer self)) ! nat d)))"
proof (intro conjI impI)
  assume "fst (add self tid v) = Inr ()"
  from add_success_last [OF this] getitem_zero_last [of "snd (add self tid v)"]
  show "fst (getitem (snd (add self tid v)) (IntIdx 0)) = Inr (Some v)"
    by simp
next
  assume "items (buffer self) \<noteq> []"
  then show "fst (getitem self (IntIdx 0)) = Inr (Some (last (items (buffer self))))"
    by (rule getitem_zero_last)
next
  assume "items (buffer self) = []"
  then show "fst (getitem self (IntIdx 0)) = Inl IndexError"
    by (simp add: getitem_int)
next
  assume d: "1 \<le> d \<and> d < int (length (items (buffer self)))"
  then have "nat d < length (items (buffer self))"
    by linarith
  then have r: "rev (items (buffer self)) ! nat d =
      items (buffer self) ! (length (items (buffer self)) - 1 - nat d)"
    by (simp add: rev_nth)
  from d show "fst (getitem self (IntIdx d)) = Inr (Some (rev (items (buffer self)) ! nat d))"
    by (simp add: getitem_int r)
  from d show "fst (getitem self (IntIdx (- d))) = Inr (Some (rev (items (buffer self)) ! nat d))"
    by (simp add: getitem_int r)
qed

theorem getitem_abs_collapse_witness:
  "fst (getitem (snd (add filled_temporal_object ''id5'' [(''value'', 50)])) (IntIdx 0))
     = Inr (Some [(''value'', 50)]) \<and>
   fst (getitem filled_temporal_object (IntIdx 0)) = Inr (Some [(''value'', 40)]) \<and>
   fst (getitem filled_temporal_object (IntIdx 2)) = Inr (Some [(''value'', 20)]) \<and>
   fst (getitem filled_temporal_object (IntIdx (- 2))) = Inr (Some [(''value'', 20)])"
  using getitem_abs_collapse [of filled_temporal_object "''id5''" "[(''value'', 50)]" 2]
  by (simp add: filled_temporal_object_eq add_def ld_setitem_def ld_contains_def
      deque_append_def Let_def)

text \<open>
  Claim C2 as stated speaks of every buffer state. On the new, empty buffer of the test suite
  \<open>buffer[0]\<close> returns no record: the guard \<open>index >= len(self.buffer)\<close> holds for
  \<open>0 >= 0\<close> and \<open>IndexError\<close> is raised.
\<close>

theorem getitem_zero_empty_counterexample:
  "items (buffer temporal_object) = [] \<and>
   fst (getitem temporal_object (IntIdx 0)) = Inl IndexError"
  by (simp add: temporal_object_eq getitem_def)

section \<open>Dispatch on the kind of subscript\<close>

text \<open>
  Claim C4 (indexed-read dispatch). In every buffer state, a slice subscript raises
  \<open>NotImplementedError\<close>; a subscript that is neither an integer, a slice nor a string raises
  \<open>TypeError\<close>; a string subscript never raises, and for an identifier that the index does
  not hold it returns \<open>None\<close>.
\<close>

theorem getitem_dispatch:
  "fst (getitem self (SliceIdx start stop step)) = Inl NotImplementedError \<and>
   fst (getitem self OtherIdx) = Inl TypeError \<and>
   (\<not> ld_contains (id_index self) k \<longrightarrow> fst (getitem self (StrIdx k)) = Inr None) \<and>
   (\<exists>r. fst (getitem self (StrIdx k)) = Inr r)"
  by (auto simp: getitem_def get_by_temporal_id_def ld_get_def ld_contains_def
      map_of_eq_None_iff [symmetric])

theorem getitem_dispatch_witness:
  "fst (getitem filled_temporal_object (SliceIdx (Some 0) (Some 1) None)) = Inl NotImplementedError \<and>
   fst (getitem filled_temporal_object OtherIdx) = Inl TypeError \<and>
   \<not> ld_contains (id_index filled_temporal_object) ''id1'' \<and>
   fst (getitem filled_temporal_object (StrIdx ''id1'')) = Inr None"
  using getitem_dispatch [of filled_temporal_object "Some 0" "Some 1" None "''id1''"]
  by (simp add: filled_temporal_object_eq ld_contains_def)

section \<open>The current record\<close>

text \<open>
  Claim C6 (\<open>current\<close>). On a buffer holding at least one record, \<open>current\<close> returns the
  most recently added record (the last element of the deque; after a successful
  \<open>add(id, v)\<close> it is \<open>v\<close>). On an empty buffer it returns no value: the read of
  \<open>buffer[-1]\<close> raises the deque's \<open>IndexError\<close>, the exception that the specification
  calls EmptyBuffer. The property does not change the object.
\<close>

theorem current_accessor:
  "(items (buffer self) \<noteq> [] \<longrightarrow> fst (current self) = Inr (last (items (buffer self)))) \<and>
   (fst (add self tid v) = Inr () \<longrightarrow> fst (current (snd (add self tid v))) = Inr v) \<and>
   (items (buffer self) = [] \<longrightarrow> fst (current self) = Inl IndexError) \<and>
   snd (current self) = self"
proof -
  have ne: "fst (current s) = Inr (last (items (buffer s)))" if "items (buffer s) \<noteq> []"
    for s :: "'a TemporalBuffer"
    using that deque_getitem_from_right [of 0 "buffer s"]
    by (simp add: current_def last_conv_nth)
  have "fst (current (snd (add self tid v))) = Inr v" if "fst (add self tid v) = Inr ()"
    using add_success_last [OF that] ne [of "snd (add self tid v)"] by simp
  moreover have "fst (current self) = Inl IndexError" if "items (buffer self) = []"
    using that by (simp add: current_def deque_getitem_def)
  ultimately show ?thesis
    using ne [of self] by (simp add: current_def)
qed

theorem current_accessor_witness:
  "fst (current filled_temporal_object) = Inr [(''value'', 40)] \<and>
   fst (current (snd (add filled_temporal_object ''id5'' [(''value'', 50)]))) = Inr [(''value'', 50)] \<and>
   fst (current temporal_object) = Inl IndexError"
  using current_accessor [of filled_temporal_object "''id5''" "[(''value'', 50)]"]
    current_accessor [of temporal_object]
  by (simp add: filled_temporal_object_eq temporal_object_eq add_def ld_setitem_def
      ld_contains_def deque_append_def Let_def)

section \<open>Calling the buffer\<close>

text \<open>
  Claim C10 (\<open>__call__\<close>). \<open>buffer(i)\<close>, with \<open>i = 0\<close> when no argument is given, raises
  \<open>IndexError\<close> on an empty buffer and otherwise is the deque's own subscript: \<open>buffer(0)\<close>
  is the oldest retained record, at the opposite end from \<open>buffer[0]\<close> (with two or more
  pairwise different records the two results differ); \<open>buffer(-d)\<close> is the record \<open>d\<close>
  places from the newest end, down to \<open>d = length\<close>, while \<open>buffer(d)\<close> counts from the
  oldest end, so the sign is not dropped; beyond the deque's range the deque's \<open>IndexError\<close>
  is raised. The call does not change the object.
\<close>

theorem call_raw_deque_indexing:
  "(items (buffer self) = [] \<longrightarrow>
      fst (call self idx) = Inl IndexError \<and> fst (call_default self) = Inl IndexError) \<and>
   (items (buffer self) \<noteq> [] \<longrightarrow>
      fst (call self idx) = deque_getitem (buffer self) idx \<and>
      fst (call_default self) = Inr (items (buffer self) ! 0)) \<and>
   (2 \<le> length (items (buffer self)) \<longrightarrow>
      fst (call self (IntIdx 0)) = Inr (items (buffer self) ! 0) \<and>
      fst (getitem self (IntIdx 0)) =
        Inr (Some (items (buffer self) ! (length (items (buffer self)) - 1))) \<and>
      (distinct (items (buffer self)) \<longrightarrow>
         map_sum id Some (fst (call self (IntIdx 0))) \<noteq> fst (getitem self (IntIdx 0)))) \<and>
   (1 \<le> d \<and> d \<le> int (length (items (buffer self))) \<longrightarrow>
      fst (call self (IntIdx (- d))) =
        Inr (items (buffer self) ! (length (items (buffer self)) - nat d))) \<and>
   (1 \<le> d \<and> d < int (length (items (buffer self))) \<longrightarrow>
      fst (call self (IntIdx d)) = Inr (items (buffer self) ! nat d)) \<and>
   (int (length (items (buffer self))) < d \<longrightarrow> fst (call self (IntIdx (- d))) = Inl IndexError) \<and>
   snd (call self idx) = self"
proof -
  let ?xs = "items (buffer self)"
  have a: "fst (call self (IntIdx (- d))) = Inr (?xs ! (length ?xs - nat d))"
    if "1 \<le> d \<and> d \<le> int (length ?xs)"
    using that deque_getitem_neg [of d "buffer self"] by (auto simp: call_def)
  have b: "fst (call self (IntIdx d)) = Inr (?xs ! nat d)" if "1 \<le> d \<and> d < int (length ?xs)"
    using that deque_getitem_nonneg [of d "buffer self"] by (auto simp: call_def)
  have c: "fst (call self (IntIdx (- d))) = Inl IndexError" if "int (length ?xs) < d"
  proof (cases "?xs = []")
    case True
    then show ?thesis by (simp add: call_def)
  next
    case False
    with that have "1 \<le> d" by (cases ?xs) auto
    with that False show ?thesis
      using deque_getitem_neg [of d "buffer self"] by (simp add: call_def)
  qed
  have z: "fst (call self (IntIdx 0)) = Inr (?xs ! 0)" if "?xs \<noteq> []"
    using that deque_getitem_nonneg [of 0 "buffer self"] by (simp add: call_def)
  have e: "map_sum id Some (fst (call self (IntIdx 0))) \<noteq> fst (getitem self (IntIdx 0))"
    if "2 \<le> length ?xs" "distinct ?xs"
  proof -
    from that have "0 < length ?xs" "length ?xs - 1 < length ?xs" "0 \<noteq> length ?xs - 1"
      by auto
    with that(2) have "?xs ! 0 \<noteq> ?xs ! (length ?xs - 1)"
      using nth_eq_iff_index_eq by blast
    moreover from that have "?xs \<noteq> []" by (cases ?xs) simp_all
    ultimately show ?thesis
      using that z by (simp add: getitem_int)
  qed
  have ne: "?xs \<noteq> []" if "2 \<le> length ?xs"
    using that by (cases ?xs) simp_all
  have g: "fst (getitem self (IntIdx 0)) = Inr (Some (?xs ! (length ?xs - 1)))"
    if "2 \<le> length ?xs"
    using ne [OF that] by (simp add: getitem_int)
  show ?thesis
    using a b c z e g ne by (simp add: call_def call_default_def)
qed

theorem call_raw_deque_indexing_witness:
  "fst (call filled_temporal_object (IntIdx 0)) = Inr [(''value'', 20)] \<and>
   fst (call_default filled_temporal_object) = Inr [(''value'', 20)] \<and>
   fst (getitem filled_temporal_object (IntIdx 0)) = Inr (Some [(''value'', 40)]) \<and>
   fst (call filled_temporal_object (IntIdx (- 1))) = Inr [(''value'', 40)] \<and>
   fst (call filled_temporal_object (IntIdx 1)) = Inr [(''value'', 30)] \<and>
   fst (call filled_temporal_object (IntIdx (- 3))) = Inr [(''value'', 20)] \<and>
   fst (call filled_temporal_object (IntIdx (- 4))) = Inl IndexError \<and>
   fst (call temporal_object (IntIdx 0)) = Inl IndexError"
  using call_raw_deque_indexing [of filled_temporal_object "IntIdx 0" 1]
    call_raw_deque_indexing [of filled_temporal_object "IntIdx 0" 3]
    call_raw_deque_indexing [of filled_temporal_object "IntIdx 0" 4]
    call_raw_deque_indexing [of temporal_object "IntIdx 0" 1]
  by (simp add: filled_temporal_object_eq temporal_object_eq)

section \<open>Direct writes to the identifier index\<close>

text \<open>
  Claim C8 (index-only mutation frame). \<open>del buffer[id]\<close> for an identifier held by the
  index, and \<open>buffer[id] = value\<close>, succeed and change only the identifier index: the deque
  (its length, contents and order) and \<open>current_index\<close> are as before, so every positional
  read returns what it returned before; in particular the record whose identifier was deleted
  is still returned by positional reads, while the identifier itself is gone from the index.
\<close>

theorem index_only_mutation_frame:
  "(ld_contains (id_index self) k \<longrightarrow>
      fst (delitem self k) = Inr () \<and>
      snd (delitem self k) = self\<lparr>id_index := id_index (snd (delitem self k))\<rparr> \<and>
      \<not> ld_contains (id_index (snd (delitem self k))) k \<and>
      buffer (snd (delitem self k)) = buffer self \<and>
      current_index (snd (delitem self k)) = current_index self \<and>
      (\<forall>i. fst (getitem (snd (delitem self k)) (IntIdx i)) = fst (getitem self (IntIdx i)))) \<and>
   fst (setitem self k v) = Inr () \<and>
   snd (setitem self k v) = self\<lparr>id_index := id_index (snd (setitem self k v))\<rparr> \<and>
   buffer (snd (setitem self k v)) = buffer self \<and>
   current_index (snd (setitem self k v)) = current_index self \<and>
   (\<forall>i. fst (getitem (snd (setitem self k v)) (IntIdx i)) = fst (getitem self (IntIdx i)))"
proof -
  have "\<not> ld_contains (d\<lparr>entries := AList.delete k (entries d)\<rparr>) k" for d :: "'a LimitedDict"
    by (simp add: ld_contains_def AList.delete_eq image_iff)
  then show ?thesis
    by (auto simp: delitem_def setitem_def ld_delitem_def intro!: getitem_int_frame)
qed

theorem index_only_mutation_frame_witness:
  "ld_contains (id_index filled_temporal_object) ''id2'' \<and>
   fst (delitem filled_temporal_object ''id2'') = Inr () \<and>
   fst (getitem (snd (delitem filled_temporal_object ''id2'')) (StrIdx ''id2'')) = Inr None \<and>
   fst (getitem (snd (delitem filled_temporal_object ''id2'')) (IntIdx 2)) = Inr (Some [(''value'', 20)]) \<and>
   items (buffer (snd (delitem filled_temporal_object ''id2''))) =
     [[(''value'', 20)], [(''value'', 30)], [(''value'', 40)]] \<and>
   current_index (snd (delitem filled_temporal_object ''id2'')) = 0"
  using index_only_mutation_frame [of filled_temporal_object "''id2''"]
  by (simp add: filled_temporal_object_eq ld_contains_def getitem_def get_by_temporal_id_def
      ld_get_def delitem_def ld_delitem_def AList.delete_eq deque_getitem_def Let_def)

section \<open>The last n records\<close>

text \<open>For a positive \<open>n\<close> the slice \<open>list(self.buffer)[-n:]\<close> is the last \<open>n\<close> records, oldest
  first, and the whole buffer when \<open>n\<close> exceeds its length.\<close>

lemma slice_from_neg:
  "0 < n \<Longrightarrow> slice_from xs (- n) = drop (length xs - nat n) xs"
proof -
  assume n: "0 < n"
  have "nat (max (- n + int (length xs)) 0) = length xs - nat n"
    using n by linarith
  with n show ?thesis
    by (simp add: slice_from_def Let_def)
qed

lemma get_last_n_states_positive:
  "0 < n \<Longrightarrow>
     get_last_n_states self n =
       (Inr (drop (length (items (buffer self)) - nat n) (items (buffer self))), self)"
  by (simp add: get_last_n_states_def slice_from_neg)

lemma get_last_n_states_exceeds:
  "int (length (items (buffer self))) < n \<Longrightarrow>
     get_last_n_states self n = (Inr (items (buffer self)), self)"
proof -
  assume a: "int (length (items (buffer self))) < n"
  then have "0 < n" and "length (items (buffer self)) - nat n = 0"
    by linarith+
  then show ?thesis
    by (simp add: get_last_n_states_positive)
qed

lemma get_last_n_states_fixture:
  "fst (get_last_n_states filled_temporal_object 2) = Inr [[(''value'', 30)], [(''value'', 40)]]"
  by (simp add: get_last_n_states_positive filled_temporal_object_eq)

text \<open>
  Claim C5 (\<open>get_last_n_states\<close>). The claim asks for the last \<open>n\<close> records for every \<open>n\<close>.
  For \<open>n = 0\<close> the slice \<open>[-0:]\<close> is \<open>[0:]\<close>, the whole list: on the fixture of the test
  suite (three records retained) \<open>get_last_n_states(0)\<close> returns all three records, not the
  empty list.
\<close>

theorem get_last_n_states_zero_returns_all:
  "fst (get_last_n_states filled_temporal_object 0) =
     Inr [[(''value'', 20)], [(''value'', 30)], [(''value'', 40)]] \<and>
   fst (get_last_n_states filled_temporal_object 0) \<noteq> Inr []"
  by (simp add: get_last_n_states_def slice_from_def filled_temporal_object_eq)

section \<open>The cursor field\<close>

text \<open>One call of \<open>add\<close> on a buffer of depth \<open>N > 0\<close> that has received \<open>k\<close> records.\<close>

lemma add_cursor_step:
  assumes N: "0 < N"
    and ml: "maxlen (buffer s) = N"
    and ln: "length (items (buffer s)) = min k N"
    and ci: "current_index s = (if k = 0 then - 1 else (int k - 1) mod int N)"
  shows "fst (add s tid v) = Inr () \<and>
         maxlen (buffer (snd (add s tid v))) = N \<and>
         length (items (buffer (snd (add s tid v)))) = min (Suc k) N \<and>
         current_index (snd (add s tid v)) = int k mod int N"
proof (cases "k < N")
  case True
  then have "current_index s + 1 = int k mod int N"
    using ci by (cases "k = 0") simp_all
  with True N ml ln show ?thesis
    by (simp add: add_def deque_append_def Let_def)
next
  case False
  then have k: "N \<le> k" "k \<noteq> 0"
    using N by simp_all
  have "(current_index s + 1) mod int N = ((int k - 1) mod int N + 1) mod int N"
    using ci k by simp
  also have "\<dots> = (int k - 1 + 1) mod int N"
    by (rule mod_add_left_eq)
  finally have "(current_index s + 1) mod int N = int k mod int N"
    by simp
  with k N ml ln show ?thesis
    by (simp add: add_def deque_append_def Let_def)
qed

lemma run_cursor:
  assumes "0 < N"
    and "\<forall>m \<in> set ms. \<forall>obj. m = Update obj \<longrightarrow> temporal_id obj \<noteq> None"
    and "maxlen (buffer s) = N"
    and "length (items (buffer s)) = min k N"
    and "current_index s = (if k = 0 then - 1 else (int k - 1) mod int N)"
  shows "fst (run temporal_id s ms) = Inr () \<and>
         maxlen (buffer (snd (run temporal_id s ms))) = N \<and>
         length (items (buffer (snd (run temporal_id s ms)))) = min (k + length ms) N \<and>
         current_index (snd (run temporal_id s ms)) =
           (if k + length ms = 0 then - 1 else (int (k + length ms) - 1) mod int N)"
  using assms
proof (induction ms arbitrary: s k)
  case Nil
  then show ?case by simp
next
  case (Cons m ms)
  obtain tid v where m: "apply_mutator temporal_id s m = add s tid v"
  proof (cases m)
    case (Add t w)
    then show ?thesis using that by (simp add: apply_mutator_def)
  next
    case (Update obj)
    with Cons.prems(2) obtain t where "temporal_id obj = Some t" by auto
    with Update show ?thesis using that by (simp add: apply_mutator_def update_def)
  qed
  from add_cursor_step [OF Cons.prems(1,3,4,5), of tid v]
  have step: "fst (add s tid v) = Inr ()"
    "maxlen (buffer (snd (add s tid v))) = N"
    "length (items (buffer (snd (add s tid v)))) = min (Suc k) N"
    "current_index (snd (add s tid v)) = (if Suc k = 0 then - 1 else (int (Suc k) - 1) mod int N)"
    by simp_all
  have rest: "\<forall>m \<in> set ms. \<forall>obj. m = Update obj \<longrightarrow> temporal_id obj \<noteq> None"
    using Cons.prems(2) by simp
  have r: "run temporal_id s (m # ms) = run temporal_id (snd (add s tid v)) ms"
    using step(1) m by (cases "add s tid v") simp
  from Cons.IH [OF Cons.prems(1) rest step(2,3,4)] show ?case
    unfolding r by simp
qed

text \<open>With depth 0 the deque is always full, and the first \<open>add\<close> stops at
  \<open>(self.current_index + 1) % 0\<close>; the statements below are for a positive depth.\<close>

lemma add_depth_zero:
  "init 0 = Inr s0 \<Longrightarrow> fst (add s0 tid v) = Inl ZeroDivisionError"
  by (auto simp: init_def deque_new_def add_def Let_def)

text \<open>
  Claim C7 (\<open>current_index\<close>). On a buffer of depth \<open>N > 0\<close>, \<open>current_index\<close> is \<open>-1\<close>
  after construction; every sequence of \<open>add\<close> and \<open>update\<close> calls (the objects passed to
  \<open>update\<close> having a \<open>temporal_id\<close>) runs without an exception, and after the \<open>k\<close>-th call,
  \<open>k \<ge> 1\<close>, \<open>current_index\<close> is \<open>(k - 1) mod N\<close>. The reads (subscript, \<open>current\<close>,
  \<open>get_last_n_states\<close>, iteration, \<open>len\<close>, \<open>get_state_at_index\<close>, \<open>in\<close>, call) return the
  object unchanged, \<open>current_index\<close> included.
\<close>

theorem current_index_evolution:
  assumes "0 < N"
    and "\<forall>m \<in> set ms. \<forall>obj. m = Update obj \<longrightarrow> temporal_id obj \<noteq> None"
  shows "\<exists>s0 s. init (int N) = Inr s0 \<and> current_index s0 = - 1 \<and>
           run temporal_id s0 ms = (Inr (), s) \<and>
           (ms \<noteq> [] \<longrightarrow> current_index s = (int (length ms) - 1) mod int N) \<and>
           (ms = [] \<longrightarrow> current_index s = - 1) \<and>
           snd (getitem s idx) = s \<and> snd (current s) = s \<and>
           snd (get_last_n_states s n) = s \<and> snd (iter s) = s \<and> snd (len s) = s \<and>
           snd (get_state_at_index s i) = s \<and> snd (contains s key) = s \<and>
           snd (call s idx) = s"
proof -
  let ?start = "\<lparr>buffer = \<lparr>maxlen = N, items = []\<rparr>, id_index = LimitedDict_new N,
              current_index = - 1\<rparr> :: 'a TemporalBuffer"
  have i: "init (int N) = Inr ?start"
    by (simp add: init_def deque_new_def)
  have "fst (run temporal_id ?start ms) = Inr () \<and>
         maxlen (buffer (snd (run temporal_id ?start ms))) = N \<and>
         length (items (buffer (snd (run temporal_id ?start ms)))) = min (0 + length ms) N \<and>
         current_index (snd (run temporal_id ?start ms)) =
           (if 0 + length ms = 0 then - 1 else (int (0 + length ms) - 1) mod int N)"
    by (rule run_cursor [OF assms]) simp_all
  then have r: "run temporal_id ?start ms = (Inr (), snd (run temporal_id ?start ms))"
    and c: "current_index (snd (run temporal_id ?start ms)) =
           (if ms = [] then - 1 else (int (length ms) - 1) mod int N)"
    by (simp_all add: prod_eq_iff)
  have reads: "snd (getitem s idx) = s \<and> snd (current s) = s \<and>
           snd (get_last_n_states s n) = s \<and> snd (iter s) = s \<and> snd (len s) = s \<and>
           snd (get_state_at_index s i) = s \<and> snd (contains s key) = s \<and>
           snd (call s idx) = s" for s :: "'a TemporalBuffer"
    by (simp add: getitem_def current_def get_last_n_states_def iter_def len_def
        get_state_at_index_def contains_def call_def Let_def split: index.splits)
  show ?thesis
    using i r c reads [of "snd (run temporal_id ?start ms)"] by auto
qed

theorem current_index_evolution_witness:
  "run (\<lambda>obj. Some ''id3'') temporal_object
     [Add ''id1'' [(''value'', 10)], Add ''id2'' [(''value'', 20)],
      Update [(''value'', 30)], Add ''id4'' [(''value'', 40)]]
     = (Inr (), filled_temporal_object) \<and>
   current_index temporal_object = - 1 \<and>
   current_index filled_temporal_object = (4 - 1) mod 3 \<and>
   snd (getitem filled_temporal_object (IntIdx 1)) = filled_temporal_object"
  using current_index_evolution [of 3
    "[Add ''id1'' [(''value'', 10 :: int)], Add ''id2'' [(''value'', 20)],
      Update [(''value'', 30)], Add ''id4'' [(''value'', 40)]]"
    "\<lambda>obj. Some ''id3''" "IntIdx 1" 0 0 "''id1''"]
  by (simp add: filled_temporal_object_eq temporal_object_eq apply_mutator_def update_def
      add_def ld_setitem_def ld_contains_def deque_append_def Let_def init_def deque_new_def
      LimitedDict_new_def)

section \<open>The deque and the identifier index under eviction\<close>

lemma update_fresh: "k \<notin> fst ` set al \<Longrightarrow> AList.update k v al = al @ [(k, v)]"
  by (induction al) auto

lemma map_of_drop_retained:
  "distinct (map fst ps) \<Longrightarrow> j < length ps \<Longrightarrow> n \<le> j \<Longrightarrow>
     map_of (drop n ps) (fst (ps ! j)) = Some (snd (ps ! j))"
proof -
  assume d: "distinct (map fst ps)" and j: "j < length ps" and n: "n \<le> j"
  have "distinct (map fst (drop n ps))"
    using d by (simp add: drop_map [symmetric])
  moreover have "ps ! j \<in> set (drop n ps)"
  proof -
    have "drop n ps ! (j - n) = ps ! j" and "j - n < length (drop n ps)"
      using j n by simp_all
    then show ?thesis
      by (metis nth_mem)
  qed
  ultimately show ?thesis
    by (cases "ps ! j") simp
qed

lemma map_of_drop_evicted:
  "distinct (map fst ps) \<Longrightarrow> j < n \<Longrightarrow> j < length ps \<Longrightarrow>
     map_of (drop n ps) (fst (ps ! j)) = None"
proof -
  assume d: "distinct (map fst ps)" and jn: "j < n" and j: "j < length ps"
  have "fst (ps ! j) \<notin> fst ` set (drop n ps)"
  proof
    assume "fst (ps ! j) \<in> fst ` set (drop n ps)"
    then obtain p where p: "p \<in> set (drop n ps)" "fst p = fst (ps ! j)"
      by auto
    then obtain i where i: "i < length (drop n ps)" "drop n ps ! i = p"
      by (auto simp: in_set_conv_nth)
    then have "n + i < length ps" "ps ! (n + i) = p"
      by auto
    with p j have "map fst ps ! (n + i) = map fst ps ! j"
      by simp
    with d j \<open>n + i < length ps\<close> have "n + i = j"
      using nth_eq_iff_index_eq [of "map fst ps" "n + i" j] by simp
    with jn show False by simp
  qed
  then show ?thesis
    by (simp add: map_of_eq_None_iff)
qed

lemma add_content_step:
  assumes N: "0 < N"
    and b: "buffer s = \<lparr>maxlen = N, items = drop (length qs - N) (map snd qs)\<rparr>"
    and ix: "id_index s = \<lparr>limit = N, entries = drop (length qs - N) qs\<rparr>"
    and fresh: "tid \<notin> fst ` set qs"
  shows "fst (add s tid v) = Inr () \<and>
         buffer (snd (add s tid v)) =
           \<lparr>maxlen = N,
            items = drop (length (qs @ [(tid, v)]) - N) (map snd (qs @ [(tid, v)]))\<rparr> \<and>
         id_index (snd (add s tid v)) =
           \<lparr>limit = N, entries = drop (length (qs @ [(tid, v)]) - N) (qs @ [(tid, v)])\<rparr>"
proof -
  let ?k = "length qs"
  have nc: "\<not> ld_contains (id_index s) tid"
    using fresh ix by (auto simp: ld_contains_def dest: in_set_dropD)
  have f1: "tid \<notin> fst ` set (drop (?k - N) qs)" and f2: "tid \<notin> fst ` set (tl (drop (?k - N) qs))"
    using fresh by (auto simp: drop_Suc [symmetric] tl_drop dest: in_set_dropD)
  show ?thesis
  proof (cases "?k < N")
    case True
    then show ?thesis
      using N b ix nc f1 by (simp add: add_def ld_setitem_def deque_append_def Let_def update_fresh)
  next
    case False
    then have k: "N \<le> ?k" by simp
    then have s: "Suc ?k - N = Suc (?k - N)" "Suc (?k - N) \<le> ?k"
      using N by simp_all
    have t: "tl (drop (?k - N) qs) = drop (Suc (?k - N)) qs"
      by (simp add: drop_Suc tl_drop)
    have t': "tl (drop (?k - N) (map snd qs)) = drop (Suc (?k - N)) (map snd qs)"
      by (simp add: drop_Suc tl_drop)
    have ne: "drop (?k - N) (map snd qs) \<noteq> []"
      using k N by simp
    show ?thesis
      using N b ix nc f2 k s t t' ne
      by (simp add: add_def ld_setitem_def deque_append_def Let_def update_fresh)
  qed
qed

lemma add_all_content:
  assumes "0 < N"
    and "buffer s = \<lparr>maxlen = N, items = drop (length qs - N) (map snd qs)\<rparr>"
    and "id_index s = \<lparr>limit = N, entries = drop (length qs - N) qs\<rparr>"
    and "distinct (map fst (qs @ ps))"
  shows "fst (add_all s ps) = Inr () \<and>
         buffer (snd (add_all s ps)) =
           \<lparr>maxlen = N, items = drop (length (qs @ ps) - N) (map snd (qs @ ps))\<rparr> \<and>
         id_index (snd (add_all s ps)) =
           \<lparr>limit = N, entries = drop (length (qs @ ps) - N) (qs @ ps)\<rparr>"
  using assms
proof (induction ps arbitrary: s qs)
  case Nil
  then show ?case by simp
next
  case (Cons p ps)
  obtain tid v where p: "p = (tid, v)" by (cases p)
  have fresh: "tid \<notin> fst ` set qs"
    using Cons.prems(4) p by auto
  note step = add_content_step [OF Cons.prems(1,2,3) fresh, of v]
  have ok: "fst (add s tid v) = Inr ()"
    and b': "buffer (snd (add s tid v)) =
           \<lparr>maxlen = N,
            items = drop (length (qs @ [(tid, v)]) - N) (map snd (qs @ [(tid, v)]))\<rparr>"
    and ix': "id_index (snd (add s tid v)) =
           \<lparr>limit = N, entries = drop (length (qs @ [(tid, v)]) - N) (qs @ [(tid, v)])\<rparr>"
    using step by blast+
  have d: "distinct (map fst ((qs @ [(tid, v)]) @ ps))"
    using Cons.prems(4) p by simp
  have r: "add_all s ((tid, v) # ps) = add_all (snd (add s tid v)) ps"
    using ok by (cases "add s tid v") simp
  from Cons.IH [OF Cons.prems(1) b' ix' d]
  show ?case
    unfolding p r by (simp only: append_assoc append_Cons append_Nil)
qed

text \<open>
  Claim C1 (dual-container consistency under eviction). Take a new buffer of depth \<open>N > 0\<close> and
  any list \<open>ps\<close> of \<open>add(id, state)\<close> calls with pairwise distinct identifiers. All calls
  succeed, and afterwards: the length is \<open>min (length ps) N\<close>; the deque holds exactly the most
  recent \<open>min (length ps) N\<close> records in insertion order; for every retained insertion \<open>j\<close>
  the string lookup of its identifier and the positional lookup at its distance from the newest
  record both return the record of that insertion; and the string lookup of every evicted
  identifier returns \<open>None\<close>.
\<close>

theorem dual_container_consistency:
  assumes "0 < N" and "distinct (map fst ps)"
  shows "\<exists>s0 s. init (int N) = Inr s0 \<and> add_all s0 ps = (Inr (), s) \<and>
           fst (len s) = Inr (min (length ps) N) \<and>
           fst (iter s) = Inr (drop (length ps - min (length ps) N) (map snd ps)) \<and>
           (\<forall>j < length ps.
              (length ps - N \<le> j \<longrightarrow>
                 fst (getitem s (StrIdx (fst (ps ! j)))) = Inr (Some (snd (ps ! j))) \<and>
                 fst (getitem s (IntIdx (int (length ps - 1 - j)))) = Inr (Some (snd (ps ! j)))) \<and>
              (j < length ps - N \<longrightarrow>
                 fst (getitem s (StrIdx (fst (ps ! j)))) = Inr None))"
proof -
  let ?start = "\<lparr>buffer = \<lparr>maxlen = N, items = []\<rparr>, id_index = LimitedDict_new N,
              current_index = - 1\<rparr> :: 'a TemporalBuffer"
  let ?final = "snd (add_all ?start ps)"
  let ?n = "length ps"
  have i: "init (int N) = Inr ?start"
    by (simp add: init_def deque_new_def)
  have "fst (add_all ?start ps) = Inr () \<and>
         buffer ?final = \<lparr>maxlen = N, items = drop (length ([] @ ps) - N) (map snd ([] @ ps))\<rparr> \<and>
         id_index ?final = \<lparr>limit = N, entries = drop (length ([] @ ps) - N) ([] @ ps)\<rparr>"
    using assms by (intro add_all_content) (simp_all add: LimitedDict_new_def)
  then have r: "add_all ?start ps = (Inr (), ?final)"
    and b: "items (buffer ?final) = drop (?n - N) (map snd ps)"
    and ix: "entries (id_index ?final) = drop (?n - N) ps"
    by (simp_all add: prod_eq_iff)
  have l: "fst (len ?final) = Inr (min ?n N)"
    using b by (simp add: len_def min_def)
  have it: "fst (iter ?final) = Inr (drop (?n - min ?n N) (map snd ps))"
    using b by (simp add: iter_def min_def)
  have str_in: "fst (getitem ?final (StrIdx (fst (ps ! j)))) = Inr (Some (snd (ps ! j)))"
    if "j < ?n" "?n - N \<le> j" for j
    using map_of_drop_retained [OF assms(2) that] ix
    by (simp add: getitem_def get_by_temporal_id_def ld_get_def)
  have str_out: "fst (getitem ?final (StrIdx (fst (ps ! j)))) = Inr None"
    if "j < ?n" "j < ?n - N" for j
    using map_of_drop_evicted [OF assms(2) that(2,1)] ix
    by (simp add: getitem_def get_by_temporal_id_def ld_get_def)
  have pos: "fst (getitem ?final (IntIdx (int (?n - 1 - j)))) = Inr (Some (snd (ps ! j)))"
    if "j < ?n" "?n - N \<le> j" for j
  proof -
    let ?m = "?n - N" and ?d = "?n - 1 - j"
    have len: "length (items (buffer ?final)) = ?n - ?m"
      using b by simp
    have in_range: "?d < length (items (buffer ?final))"
      unfolding len using that assms(1) by linarith
    have idx: "length (items (buffer ?final)) - 1 - ?d = j - ?m"
      unfolding len using that assms(1) by linarith
    have rec: "items (buffer ?final) ! (j - ?m) = snd (ps ! j)"
      unfolding b using that by simp
    have "fst (getitem ?final (IntIdx (int ?d))) =
        Inr (Some (items (buffer ?final) ! (length (items (buffer ?final)) - 1 - ?d)))"
      by (rule getitem_nat [OF in_range])
    then show ?thesis
      by (simp only: idx rec)
  qed
  show ?thesis
    using i r l it str_in str_out pos by blast
qed

theorem dual_container_consistency_witness:
  "fst (len filled_temporal_object) = Inr 3 \<and>
   fst (iter filled_temporal_object) = Inr [[(''value'', 20)], [(''value'', 30)], [(''value'', 40)]] \<and>
   fst (getitem filled_temporal_object (StrIdx ''id1'')) = Inr None \<and>
   fst (getitem filled_temporal_object (StrIdx ''id2'')) = Inr (Some [(''value'', 20)]) \<and>
   fst (getitem filled_temporal_object (IntIdx 2)) = Inr (Some [(''value'', 20)])"
  using dual_container_consistency [of 3
    "[(''id1'', [(''value'', 10 :: int)]), (''id2'', [(''value'', 20)]),
      (''id3'', [(''value'', 30)]), (''id4'', [(''value'', 40)])]"]
  by (simp add: filled_temporal_object_eq len_def iter_def getitem_def get_by_temporal_id_def
      ld_get_def deque_getitem_def Let_def)

section \<open>Cursor stubs\<close>

text \<open>
  Claim C9 (cursor stubs fail loudly). In every buffer state, \<open>move_forward()\<close> and
  \<open>move_backward()\<close> raise \<open>NotImplementedError\<close> and leave the object as it was: the
  deque, the identifier index and \<open>current_index\<close> are unchanged.
\<close>

theorem move_stubs_fail_loudly:
  "move_forward self = (Inl NotImplementedError, self) \<and>
   move_backward self = (Inl NotImplementedError, self) \<and>
   buffer (snd (move_forward self)) = buffer self \<and>
   id_index (snd (move_forward self)) = id_index self \<and>
   current_index (snd (move_forward self)) = current_index self \<and>
   buffer (snd (move_backward self)) = buffer self \<and>
   id_index (snd (move_backward self)) = id_index self \<and>
   current_index (snd (move_backward self)) = current_index self"
  by (simp add: move_forward_def move_backward_def)

end
